theory Spec2Isabelle
  imports Main "HOL-Library.DAList" "HOL-Library.Multiset"
begin

section \<open>JavaScript values used by the components\<close>

text \<open>
  A plain JavaScript object used as a dictionary (\<open>Record<string, T>\<close>) is an association
  list of its own properties, with distinct keys, in insertion order: \<open>{...prev, [k]: v}\<close>
  is \<open>DAList.update\<close> (an existing key keeps its place, a new key goes to the end),
  \<open>delete o[k]\<close> is \<open>DAList.delete\<close>, and \<open>Object.entries\<close>/\<open>Object.keys\<close> read the
  underlying list (integer-like keys, which JavaScript enumerates first, are not
  distinguished).
\<close>

type_synonym 'v js_object = "(string, 'v) alist"

text \<open>
  Reading \<open>o[k]\<close> follows the prototype chain. The state objects start as \<open>{}\<close> and the
  ballot comes from \<open>JSON.parse\<close>, so their prototype is \<open>Object.prototype\<close>: a key that
  is not an own property but names a member of \<open>Object.prototype\<close> reads as that member (a
  function, or the prototype object for \<open>__proto__\<close>), which is neither \<open>undefined\<close> nor
  falsy.
\<close>

datatype 'v js_value = Undefined | Own 'v | Inherited

definition objectPrototypeMembers :: "string list" where
  "objectPrototypeMembers =
     [''constructor'', ''hasOwnProperty'', ''isPrototypeOf'', ''propertyIsEnumerable'',
      ''toLocaleString'', ''toString'', ''valueOf'', ''__proto__'',
      ''__defineGetter__'', ''__defineSetter__'', ''__lookupGetter__'', ''__lookupSetter__'']"

definition getProperty :: "'v js_object \<Rightarrow> string \<Rightarrow> 'v js_value" where
  "getProperty obj k =
     (case DAList.lookup obj k of
        Some v \<Rightarrow> Own v
      | None \<Rightarrow> if k \<in> set objectPrototypeMembers then Inherited else Undefined)"

text \<open>Truthiness of a value read from a \<open>Record<string, boolean>\<close>.\<close>

definition truthy_value :: "bool js_value \<Rightarrow> bool" where
  "truthy_value v = (case v of Undefined \<Rightarrow> False | Own b \<Rightarrow> b | Inherited \<Rightarrow> True)"

definition entries :: "'v js_object \<Rightarrow> (string \<times> 'v) list" where
  "entries obj = DAList.impl_of obj"

definition keys :: "'v js_object \<Rightarrow> string list" where
  "keys obj = map fst (DAList.impl_of obj)"

text \<open>Truthiness of an optional string: \<open>undefined\<close> and \<open>""\<close> are falsy.\<close>

definition truthy_string :: "string option \<Rightarrow> bool" where
  "truthy_string v = (case v of None \<Rightarrow> False | Some s \<Rightarrow> s \<noteq> [])"

text \<open>The object holds \<open>true\<close> for the key, as an own property.\<close>

definition truthy_flag :: "bool js_object \<Rightarrow> string \<Rightarrow> bool" where
  "truthy_flag flags k = (DAList.lookup flags k = Some True)"

text \<open>\<open>Array.prototype.join\<close> on an array of strings.\<close>

fun join :: "string \<Rightarrow> string list \<Rightarrow> string" where
  "join sep [] = []"
| "join sep [x] = x"
| "join sep (x # y # ys) = x @ sep @ join sep (y # ys)"

section \<open>Candidates.tsx: the ballot workflow\<close>

text \<open>
  The \<open>Candidate\<close> interface. The fields \<open>id\<close>, \<open>_id\<close> and \<open>image\<close> are named
  \<open>cand_id\<close>, \<open>cand_uid\<close> and \<open>cand_image\<close> here. The interface declares \<open>id\<close> as a
  string, but \<open>handleVote\<close> guards against its absence, so it is optional in the model.
\<close>

record candidate =
  cand_id :: "string option"
  cand_uid :: "string option"
  name :: string
  imageUrl :: "string option"
  cand_image :: "string option"
  bio :: "string option"
  manifesto :: "string option"
  votes :: "int option"
  position :: string
  positionId :: "string option"

type_synonym CandidatesByPosition = "candidate list js_object"

text \<open>The component state (the \<open>useState\<close> cells the handlers read and write).\<close>

record ballot_state =
  candidatesByPosition :: CandidatesByPosition
  positions :: "string list"
  selectedCandidateIds :: "string js_object"
  noneSelected :: "bool js_object"
  error :: string
  unselectedPositions :: "string list"
  loading :: bool

definition initial_state :: ballot_state where
  "initial_state =
     \<lparr>candidatesByPosition = DAList.empty, positions = [],
      selectedCandidateIds = DAList.empty, noneSelected = DAList.empty,
      error = [], unselectedPositions = [], loading = True\<rparr>"

text \<open>\<open>candidate.id || candidate._id || ""\<close>\<close>

definition candidateId :: "candidate \<Rightarrow> string" where
  "candidateId c =
     (if truthy_string (cand_id c) then the (cand_id c)
      else if truthy_string (cand_uid c) then the (cand_uid c)
      else [])"

definition handleVote :: "candidate \<Rightarrow> string \<Rightarrow> ballot_state \<Rightarrow> ballot_state" where
  "handleVote c pos s =
     s\<lparr>noneSelected := DAList.update pos False (noneSelected s),
       selectedCandidateIds := DAList.update pos (candidateId c) (selectedCandidateIds s),
       error := []\<rparr>"

definition handleNoneSelected :: "string \<Rightarrow> ballot_state \<Rightarrow> ballot_state" where
  "handleNoneSelected pos s =
     s\<lparr>noneSelected := DAList.update pos True (noneSelected s),
       selectedCandidateIds := DAList.delete pos (selectedCandidateIds s),
       error := []\<rparr>"

text \<open>
  The effect on \<open>[selectedCandidateIds, noneSelected, positions]\<close>: it recomputes
  \<open>unselectedPositions\<close> after every render in which one of the three changed.
\<close>

definition is_unselected :: "ballot_state \<Rightarrow> string \<Rightarrow> bool" where
  "is_unselected s pos =
     (getProperty (selectedCandidateIds s) pos = Undefined
      \<and> \<not> truthy_value (getProperty (noneSelected s) pos))"

definition unselectedEffect :: "ballot_state \<Rightarrow> ballot_state" where
  "unselectedEffect s = s\<lparr>unselectedPositions := filter (is_unselected s) (positions s)\<rparr>"

text \<open>
  \<open>handleConfirmVote\<close>. The payload is built by \<open>reduce\<close> over the entries of
  \<open>selectedCandidateIds\<close>; \<open>candidatesByPosition[position]?.find((c) => c.id === candidateId)\<close>
  is \<open>resolveCandidate\<close>, which reads the ballot's own keys. The handler either calls
  \<open>navigate("/confirm-vote", {state})\<close> and leaves the component state alone, or sets the
  error message. \<open>positionSelected\<close> is the test that \<open>positions.every\<close> applies to each
  position.
\<close>

record confirm_payload =
  selectedCandidates :: "candidate js_object"
  payload_noneSelected :: "bool js_object"

definition resolveCandidate :: "CandidatesByPosition \<Rightarrow> string \<Rightarrow> string \<Rightarrow> candidate option" where
  "resolveCandidate cbp pos cid =
     (case DAList.lookup cbp pos of
        None \<Rightarrow> None
      | Some cs \<Rightarrow> find (\<lambda>c. cand_id c = Some cid) cs)"

definition reduceStep :: "CandidatesByPosition \<Rightarrow> string \<times> string \<Rightarrow> candidate js_object \<Rightarrow> candidate js_object" where
  "reduceStep cbp entry acc =
     (case resolveCandidate cbp (fst entry) (snd entry) of
        Some c \<Rightarrow> DAList.update (fst entry) c acc
      | None \<Rightarrow> acc)"

definition validSelectedCandidates :: "ballot_state \<Rightarrow> candidate js_object" where
  "validSelectedCandidates s =
     fold (reduceStep (candidatesByPosition s)) (entries (selectedCandidateIds s)) DAList.empty"

definition positionSelected :: "ballot_state \<Rightarrow> string \<Rightarrow> bool" where
  "positionSelected s pos =
     (getProperty (selectedCandidateIds s) pos \<noteq> Undefined
      \<or> truthy_value (getProperty (noneSelected s) pos))"

definition allPositionsSelected :: "ballot_state \<Rightarrow> bool" where
  "allPositionsSelected s = list_all (positionSelected s) (positions s)"

definition selectionPrompt :: string where
  "selectionPrompt = ''Please make a selection for each position: ''"

definition handleConfirmVote :: "ballot_state \<Rightarrow> ballot_state \<times> (string \<times> confirm_payload) option" where
  "handleConfirmVote s =
     (if allPositionsSelected s
      then (s, Some (''/confirm-vote'',
                     \<lparr>selectedCandidates = validSelectedCandidates s,
                      payload_noneSelected = noneSelected s\<rparr>))
      else (s\<lparr>error := selectionPrompt @ join '', '' (unselectedPositions s)\<rparr>, None))"

text \<open>
  The outcome of a request to \<open>/api/candidates/for-voter\<close>: a response with its body, or a
  rejected promise (with the HTTP status when the server answered). A body is \<open>None\<close> when
  it is falsy (\<open>null\<close>, an empty body).
\<close>

datatype 'a fetch_result = Response 'a | Failure "nat option"

definition noCandidatesMessage :: string where
  "noCandidatesMessage = ''No candidates available for your voter group.''"

text \<open>
  \<open>handleRefresh\<close>, from \<open>setLoading(true)\<close> to the \<open>finally\<close> of the promise chain.
\<close>

definition handleRefresh :: "CandidatesByPosition option fetch_result \<Rightarrow> ballot_state \<Rightarrow> ballot_state" where
  "handleRefresh r s =
     (let s1 = s\<lparr>loading := True\<rparr>;
          s2 = (case r of
                  Response body \<Rightarrow>
                    (case body of
                       None \<Rightarrow>
                         s1\<lparr>error := noCandidatesMessage,
                            candidatesByPosition := DAList.empty, positions := []\<rparr>
                     | Some data \<Rightarrow>
                         if keys data = []
                         then s1\<lparr>error := noCandidatesMessage,
                                 candidatesByPosition := DAList.empty, positions := []\<rparr>
                         else s1\<lparr>candidatesByPosition := data, positions := keys data,
                                 error := []\<rparr>)
                | Failure st \<Rightarrow>
                    s1\<lparr>error := ''Failed to refresh candidates. Please try again.''\<rparr>)
      in s2\<lparr>loading := False\<rparr>)"

text \<open>
  The two effects that fetch the ballot on mount, after their guards (a user, a stored
  voter id) have passed. The first one resets the selection; its body is taken to be an
  object, as the endpoint returns. The second one has the branches of \<open>handleRefresh\<close> and
  a message of its own for a 404.
\<close>

definition fetchOnMount :: "CandidatesByPosition fetch_result \<Rightarrow> ballot_state \<Rightarrow> ballot_state" where
  "fetchOnMount r s =
     (let s1 = s\<lparr>loading := True\<rparr>;
          s2 = (case r of
                  Response data \<Rightarrow>
                    s1\<lparr>selectedCandidateIds := DAList.empty, noneSelected := DAList.empty,
                       candidatesByPosition := data, positions := keys data\<rparr>
                | Failure st \<Rightarrow>
                    s1\<lparr>error := ''Failed to load candidates. Please try again.''\<rparr>)
      in s2\<lparr>loading := False\<rparr>)"

definition fetchInBackground :: "CandidatesByPosition option fetch_result \<Rightarrow> ballot_state \<Rightarrow> ballot_state" where
  "fetchInBackground r s =
     (let s1 = s\<lparr>loading := True\<rparr>;
          s2 = (case r of
                  Response body \<Rightarrow>
                    (case body of
                       None \<Rightarrow>
                         s1\<lparr>error := noCandidatesMessage,
                            candidatesByPosition := DAList.empty, positions := []\<rparr>
                     | Some data \<Rightarrow>
                         if keys data = []
                         then s1\<lparr>error := noCandidatesMessage,
                                 candidatesByPosition := DAList.empty, positions := []\<rparr>
                         else s1\<lparr>candidatesByPosition := data, positions := keys data,
                                 error := []\<rparr>)
                | Failure st \<Rightarrow>
                    if st = Some 404
                    then s1\<lparr>error := ''No candidates found for your voter group. Please contact the administrator.''\<rparr>
                    else s1\<lparr>error := ''Failed to load candidates. Please try again.''\<rparr>)
      in s2\<lparr>loading := False\<rparr>)"

text \<open>
  One event of the component followed by the render that re-runs the
  \<open>unselectedPositions\<close> effect; a run starts from the initial \<open>useState\<close> values. The
  effect is a function of its three dependencies, so running it when none of them changed
  stores the list that is already there.
\<close>

datatype ballot_event =
    MountFetch "CandidatesByPosition fetch_result"
  | BackgroundFetch "CandidatesByPosition option fetch_result"
  | Refresh "CandidatesByPosition option fetch_result"
  | Vote candidate string
  | NoneOfTheListed string
  | Confirm

fun handle :: "ballot_event \<Rightarrow> ballot_state \<Rightarrow> ballot_state" where
  "handle (MountFetch r) s = fetchOnMount r s"
| "handle (BackgroundFetch r) s = fetchInBackground r s"
| "handle (Refresh r) s = handleRefresh r s"
| "handle (Vote c pos) s = handleVote c pos s"
| "handle (NoneOfTheListed pos) s = handleNoneSelected pos s"
| "handle Confirm s = fst (handleConfirmVote s)"

definition step :: "ballot_event \<Rightarrow> ballot_state \<Rightarrow> ballot_state" where
  "step e s = unselectedEffect (handle e s)"

definition run :: "ballot_event list \<Rightarrow> ballot_state" where
  "run evs = fold step evs initial_state"

text \<open>The state the handlers see between events: the effect has run on it.\<close>

definition settled :: "ballot_state \<Rightarrow> bool" where
  "settled s = (unselectedPositions s = filter (is_unselected s) (positions s))"

text \<open>A position is both selected and abstained in the state.\<close>

definition conflicting :: "ballot_state \<Rightarrow> string \<Rightarrow> bool" where
  "conflicting s pos =
     (DAList.lookup (selectedCandidateIds s) pos \<noteq> None \<and> truthy_flag (noneSelected s) pos)"

section \<open>ActivityLogManager: the activity log viewer\<close>

subsection \<open>Strings\<close>

text \<open>\<open>s.includes(t)\<close>: \<open>t\<close> occurs in \<open>s\<close> as a contiguous substring.\<close>

fun startsWith :: "string \<Rightarrow> string \<Rightarrow> bool" where
  "startsWith s [] = True"
| "startsWith [] (c # t) = False"
| "startsWith (a # s) (c # t) = (a = c \<and> startsWith s t)"

fun str_includes :: "string \<Rightarrow> string \<Rightarrow> bool" where
  "str_includes [] t = (t = [])"
| "str_includes (a # s) t = (startsWith (a # s) t \<or> str_includes s t)"

text \<open>Decimal digits of a number, as a template literal prints an HTTP status.\<close>

definition digitChar :: "nat \<Rightarrow> char" where
  "digitChar d = ''0123456789'' ! (d mod 10)"

fun showNat :: "nat \<Rightarrow> string" where
  "showNat n =
     (if n < 10 then [digitChar n]
      else showNat (n div 10) @ [digitChar (n mod 10)])"

subsection \<open>Log entries\<close>

text \<open>
  The \<open>ActivityLog\<close> interface; \<open>_id\<close> is \<open>log_id\<close>, the user's \<open>_id\<close> is \<open>user_id\<close> and
  the role's \<open>name\<close> is \<open>role_name\<close>.
\<close>

record user_role =
  role_name :: string

record log_user =
  user_id :: string
  username :: string
  fullName :: string
  role :: "user_role option"

record ActivityLog =
  log_id :: string
  userId :: string
  user :: "log_user option"
  action :: string
  entity :: string
  entityId :: string
  details :: string
  ipAddress :: string
  timestamp :: string

subsection \<open>Dates and sorting as the platform provides them\<close>

text \<open>
  The built-ins of the browser are parameters of the model. \<open>dateParse\<close> is the time
  value of \<open>new Date(string)\<close> in milliseconds since the epoch (UTC), \<open>None\<close> for an
  invalid date (\<open>NaN\<close>). \<open>localOffset\<close> is local time minus UTC in milliseconds; it is
  one number, which is exact for a zone without daylight saving and for instants away
  from a change of offset. \<open>toLocaleString\<close> renders a time value in the browser's
  locale, and \<open>toLowerCase\<close> is \<open>String.prototype.toLowerCase\<close>. \<open>engineSort\<close> is the order
  in which the engine's \<open>Array.prototype.sort\<close> leaves an array when the comparator
  returns \<open>NaN\<close> for some pair, which ECMAScript leaves to the implementation.
\<close>

record js_env =
  dateParse :: "string \<Rightarrow> int option"
  localOffset :: int
  toLocaleString :: "int option \<Rightarrow> string"
  toLowerCase :: "string \<Rightarrow> string"
  engineSort :: "(ActivityLog \<Rightarrow> ActivityLog \<Rightarrow> int option) \<Rightarrow> ActivityLog list \<Rightarrow> ActivityLog list"

definition msPerDay :: int where
  "msPerDay = 86400000"

text \<open>
  \<open>Date.prototype.setHours(hour, min, sec)\<close> on a valid date: the fields are set in local
  time, the day and the milliseconds of the local time are kept, and the result is
  converted back to UTC.
\<close>

definition setHours :: "js_env \<Rightarrow> int \<Rightarrow> int \<Rightarrow> int \<Rightarrow> int \<Rightarrow> int" where
  "setHours env h m sec t =
     (let local = t + localOffset env
      in (local div msPerDay) * msPerDay
         + (h * 3600000 + m * 60000 + sec * 1000 + local mod 1000)
         - localOffset env)"

text \<open>\<open>a >= b\<close> and \<open>a <= b\<close> on two dates: false as soon as one of them is invalid.\<close>

definition date_ge :: "int option \<Rightarrow> int option \<Rightarrow> bool" where
  "date_ge a b = (case a of None \<Rightarrow> False | Some x \<Rightarrow> (case b of None \<Rightarrow> False | Some y \<Rightarrow> x \<ge> y))"

definition date_le :: "int option \<Rightarrow> int option \<Rightarrow> bool" where
  "date_le a b = (case a of None \<Rightarrow> False | Some x \<Rightarrow> (case b of None \<Rightarrow> False | Some y \<Rightarrow> x \<le> y))"

text \<open>
  \<open>Array.prototype.sort(compare)\<close> on the entries. When the comparator returns a number
  for every pair of the array (for the comparator of this component that makes it a
  consistent ordering), the sort is stable and every stable sort computes the same array,
  written here as a stable insertion sort. Otherwise the order is the engine's.
\<close>

definition notAfter :: "int option \<Rightarrow> bool" where
  "notAfter v = (case v of None \<Rightarrow> True | Some d \<Rightarrow> d \<le> 0)"

fun insertSorted :: "('a \<Rightarrow> 'a \<Rightarrow> int option) \<Rightarrow> 'a \<Rightarrow> 'a list \<Rightarrow> 'a list" where
  "insertSorted cmp x [] = [x]"
| "insertSorted cmp x (y # ys) =
     (if notAfter (cmp x y) then x # y # ys else y # insertSorted cmp x ys)"

definition comparable :: "('a \<Rightarrow> 'a \<Rightarrow> int option) \<Rightarrow> 'a list \<Rightarrow> bool" where
  "comparable cmp xs = list_all (\<lambda>x. list_all (\<lambda>y. cmp x y \<noteq> None) xs) xs"

definition arraySort ::
    "js_env \<Rightarrow> (ActivityLog \<Rightarrow> ActivityLog \<Rightarrow> int option) \<Rightarrow> ActivityLog list \<Rightarrow> ActivityLog list" where
  "arraySort env cmp xs =
     (if comparable cmp xs then foldr (insertSorted cmp) xs [] else engineSort env cmp xs)"

subsection \<open>Filters and state\<close>

text \<open>
  The \<open>filters\<close> object; its keys \<open>user\<close>, \<open>action\<close> and \<open>entity\<close> are \<open>filter_user\<close>,
  \<open>filter_action\<close> and \<open>filter_entity\<close> here.
\<close>

record log_filters =
  filter_user :: string
  filter_action :: string
  filter_entity :: string
  fromDate :: string
  toDate :: string

datatype filter_key = UserKey | ActionKey | EntityKey | FromDateKey | ToDateKey

datatype notification_type = NoticeSuccess | NoticeError

record notification =
  notice_type :: notification_type
  message :: string

datatype timer_callback = ClearNotification

text \<open>
  The component state; \<open>error\<close> of the component is \<open>loadError\<close>, and \<open>timers\<close> holds the
  pending \<open>setTimeout\<close> calls with their delay in milliseconds.
\<close>

record log_state =
  logs :: "ActivityLog list"
  filteredLogs :: "ActivityLog list"
  searchTerm :: string
  isLoading :: bool
  loadError :: "string option"
  notification :: "notification option"
  filters :: log_filters
  timers :: "(nat \<times> timer_callback) list"

definition noFilters :: log_filters where
  "noFilters = \<lparr>filter_user = [], filter_action = [], filter_entity = [], fromDate = [], toDate = []\<rparr>"

definition initial_logs :: log_state where
  "initial_logs =
     \<lparr>logs = [], filteredLogs = [], searchTerm = [], isLoading = False, loadError = None,
      notification = None, filters = noFilters, timers = []\<rparr>"

subsection \<open>The filtering effect\<close>

definition matchesSearch :: "js_env \<Rightarrow> string \<Rightarrow> ActivityLog \<Rightarrow> bool" where
  "matchesSearch env term log =
     ((case user log of
         None \<Rightarrow> False
       | Some u \<Rightarrow> username u \<noteq> [] \<and> str_includes (toLowerCase env (username u)) term)
      \<or> (case user log of
         None \<Rightarrow> False
       | Some u \<Rightarrow> fullName u \<noteq> [] \<and> str_includes (toLowerCase env (fullName u)) term)
      \<or> str_includes (toLowerCase env (action log)) term
      \<or> str_includes (toLowerCase env (entity log)) term
      \<or> str_includes (toLowerCase env (details log)) term)"

definition matchesUser :: "string \<Rightarrow> ActivityLog \<Rightarrow> bool" where
  "matchesUser u log =
     (map_option username (user log) = Some u \<or> map_option fullName (user log) = Some u)"

definition onOrAfter :: "js_env \<Rightarrow> string \<Rightarrow> ActivityLog \<Rightarrow> bool" where
  "onOrAfter env d log = date_ge (dateParse env (timestamp log)) (dateParse env d)"

definition onOrBefore :: "js_env \<Rightarrow> string \<Rightarrow> ActivityLog \<Rightarrow> bool" where
  "onOrBefore env d log =
     date_le (dateParse env (timestamp log))
             (map_option (setHours env 23 59 59) (dateParse env d))"

definition newestFirst :: "js_env \<Rightarrow> ActivityLog \<Rightarrow> ActivityLog \<Rightarrow> int option" where
  "newestFirst env a b =
     (case dateParse env (timestamp b) of
        None \<Rightarrow> None
      | Some tb \<Rightarrow> (case dateParse env (timestamp a) of None \<Rightarrow> None | Some ta \<Rightarrow> Some (tb - ta)))"

definition applyFilters :: "js_env \<Rightarrow> ActivityLog list \<Rightarrow> string \<Rightarrow> log_filters \<Rightarrow> ActivityLog list" where
  "applyFilters env all_logs term f =
     (let filtered = all_logs;
          filtered = (if term \<noteq> [] then filter (matchesSearch env (toLowerCase env term)) filtered
                      else filtered);
          filtered = (if filter_user f \<noteq> [] then filter (matchesUser (filter_user f)) filtered
                      else filtered);
          filtered = (if filter_action f \<noteq> [] then filter (\<lambda>log. action log = filter_action f) filtered
                      else filtered);
          filtered = (if filter_entity f \<noteq> [] then filter (\<lambda>log. entity log = filter_entity f) filtered
                      else filtered);
          filtered = (if fromDate f \<noteq> [] then filter (onOrAfter env (fromDate f)) filtered
                      else filtered);
          filtered = (if toDate f \<noteq> [] then filter (onOrBefore env (toDate f)) filtered
                      else filtered)
      in arraySort env (newestFirst env) filtered)"

definition filterEffect :: "js_env \<Rightarrow> log_state \<Rightarrow> log_state" where
  "filterEffect env s =
     (if logs s = [] then s
      else s\<lparr>filteredLogs := applyFilters env (logs s) (searchTerm s) (filters s)\<rparr>)"

subsection \<open>Handlers\<close>

text \<open>
  The outcome of a \<open>fetch\<close>: a response with its status and parsed body, or a rejected
  promise with the message of its error. \<open>response.ok\<close> is a status from 200 to 299.
\<close>

datatype 'a http_result = HttpResponse nat 'a | NetworkError string

definition response_ok :: "nat \<Rightarrow> bool" where
  "response_ok st = (200 \<le> st \<and> st \<le> 299)"

text \<open>\<open>error.message || fallback\<close>\<close>

definition messageOr :: "string \<Rightarrow> string \<Rightarrow> string" where
  "messageOr m fallback = (if m \<noteq> [] then m else fallback)"

definition fetchLogs :: "bool \<Rightarrow> ActivityLog list http_result \<Rightarrow> log_state \<Rightarrow> log_state" where
  "fetchLogs canViewLogs r s =
     (if \<not> canViewLogs then s
      else
        let s1 = s\<lparr>isLoading := True, loadError := None\<rparr>;
            s2 = (case r of
                    HttpResponse st data \<Rightarrow>
                      if response_ok st then s1\<lparr>logs := data, filteredLogs := data\<rparr>
                      else s1\<lparr>loadError :=
                              Some (messageOr (''Failed to fetch logs: '' @ showNat st)
                                              ''Failed to load activity logs'')\<rparr>
                  | NetworkError m \<Rightarrow>
                      s1\<lparr>loadError := Some (messageOr m ''Failed to load activity logs'')\<rparr>)
        in s2\<lparr>isLoading := False\<rparr>)"

definition handleFilterChange :: "filter_key \<Rightarrow> string \<Rightarrow> log_state \<Rightarrow> log_state" where
  "handleFilterChange k v s =
     s\<lparr>filters :=
         (case k of
            UserKey \<Rightarrow> (filters s)\<lparr>filter_user := v\<rparr>
          | ActionKey \<Rightarrow> (filters s)\<lparr>filter_action := v\<rparr>
          | EntityKey \<Rightarrow> (filters s)\<lparr>filter_entity := v\<rparr>
          | FromDateKey \<Rightarrow> (filters s)\<lparr>fromDate := v\<rparr>
          | ToDateKey \<Rightarrow> (filters s)\<lparr>toDate := v\<rparr>)\<rparr>"

definition handleClearFilters :: "log_state \<Rightarrow> log_state" where
  "handleClearFilters s = s\<lparr>filters := noFilters, searchTerm := []\<rparr>"

text \<open>
  \<open>handleClearLogs\<close>. Its inputs are the permission, the answer to \<open>window.confirm\<close> and
  the outcome the DELETE request has if it is sent; its outputs are the new state and the
  interactions with the outside, in order.
\<close>

datatype interaction = ConfirmDialog | DeleteRequest string

definition handleClearLogs ::
    "bool \<Rightarrow> bool \<Rightarrow> unit http_result \<Rightarrow> log_state \<Rightarrow> log_state \<times> interaction list" where
  "handleClearLogs canDeleteLogs confirmed r s =
     (if \<not> canDeleteLogs then (s, [])
      else if \<not> confirmed then (s, [ConfirmDialog])
      else
        let s1 = s\<lparr>isLoading := True\<rparr>;
            s2 = (case r of
                    HttpResponse st body \<Rightarrow>
                      if response_ok st
                      then s1\<lparr>logs := [], filteredLogs := [],
                              notification :=
                                Some \<lparr>notice_type = NoticeSuccess,
                                      message = ''All activity logs have been cleared successfully''\<rparr>\<rparr>
                      else s1\<lparr>notification :=
                                Some \<lparr>notice_type = NoticeError,
                                      message = messageOr (''Failed to clear logs: '' @ showNat st)
                                                          ''Failed to clear activity logs''\<rparr>\<rparr>
                  | NetworkError m \<Rightarrow>
                      s1\<lparr>notification :=
                           Some \<lparr>notice_type = NoticeError,
                                 message = messageOr m ''Failed to clear activity logs''\<rparr>\<rparr>)
        in (s2\<lparr>isLoading := False, timers := timers s2 @ [(3000, ClearNotification)]\<rparr>,
            [ConfirmDialog, DeleteRequest ''/api/logs/clear'']))"

text \<open>The "Clear All Logs" button is rendered under \<open>canDeleteLogs &&\<close>.\<close>

definition clearButtonRendered :: "bool \<Rightarrow> bool" where
  "clearButtonRendered canDeleteLogs = canDeleteLogs"

text \<open>The oldest pending timer fires.\<close>

definition fireTimer :: "log_state \<Rightarrow> log_state" where
  "fireTimer s =
     (case timers s of
        [] \<Rightarrow> s
      | (delay, ClearNotification) # rest \<Rightarrow> s\<lparr>notification := None, timers := rest\<rparr>)"

text \<open>
  One event of the log viewer followed by the render that re-runs the filtering effect
  (a function of \<open>logs\<close>, \<open>searchTerm\<close> and \<open>filters\<close>, its dependencies).
\<close>

datatype log_event =
    LogsFetched "ActivityLog list http_result"
  | SearchTyped string
  | FilterChanged filter_key string
  | FiltersCleared
  | ClearLogsClicked bool "unit http_result"
  | TimerFired

record permissions =
  canViewLogs :: bool
  canDeleteLogs :: bool

fun handle_log :: "permissions \<Rightarrow> log_event \<Rightarrow> log_state \<Rightarrow> log_state" where
  "handle_log p (LogsFetched r) s = fetchLogs (canViewLogs p) r s"
| "handle_log p (SearchTyped t) s = s\<lparr>searchTerm := t\<rparr>"
| "handle_log p (FilterChanged k v) s = handleFilterChange k v s"
| "handle_log p FiltersCleared s = handleClearFilters s"
| "handle_log p (ClearLogsClicked confirmed r) s = fst (handleClearLogs (canDeleteLogs p) confirmed r s)"
| "handle_log p TimerFired s = fireTimer s"

definition step_log :: "js_env \<Rightarrow> permissions \<Rightarrow> log_event \<Rightarrow> log_state \<Rightarrow> log_state" where
  "step_log env p e s = filterEffect env (handle_log p e s)"

definition run_log :: "js_env \<Rightarrow> permissions \<Rightarrow> log_event list \<Rightarrow> log_state" where
  "run_log env p evs = fold (step_log env p) evs initial_logs"

subsection \<open>CSV export\<close>

definition dquote :: string where
  "dquote = [CHR 0x22]"

definition newline :: string where
  "newline = [CHR 0x0A]"

definition formatTimestamp :: "js_env \<Rightarrow> string \<Rightarrow> string" where
  "formatTimestamp env ts = toLocaleString env (dateParse env ts)"

text \<open>\<open>log.details.replace(/"/g, '""')\<close>\<close>

definition escapeQuotes :: "string \<Rightarrow> string" where
  "escapeQuotes d = concat (map (\<lambda>c. if c = CHR 0x22 then [CHR 0x22, CHR 0x22] else [c]) d)"

definition exportUser :: "ActivityLog \<Rightarrow> string" where
  "exportUser log =
     (case user log of
        None \<Rightarrow> ''Unknown''
      | Some u \<Rightarrow> if fullName u \<noteq> [] then fullName u else username u)"

definition exportRole :: "ActivityLog \<Rightarrow> string" where
  "exportRole log =
     (case user log of
        None \<Rightarrow> []
      | Some u \<Rightarrow> (case role u of None \<Rightarrow> [] | Some r \<Rightarrow> role_name r))"

definition csvHeader :: string where
  "csvHeader = ''Time,User,Role,Action,Entity,Details,IP Address'' @ newline"

definition csvRow :: "js_env \<Rightarrow> ActivityLog \<Rightarrow> string" where
  "csvRow env log =
     dquote @ formatTimestamp env (timestamp log) @ dquote @ '','' @
     dquote @ exportUser log @ dquote @ '','' @
     dquote @ exportRole log @ dquote @ '','' @
     dquote @ action log @ dquote @ '','' @
     dquote @ entity log @ dquote @ '','' @
     dquote @ escapeQuotes (details log) @ dquote @ '','' @
     dquote @ ipAddress log @ dquote @ newline"

text \<open>\<open>handleExport\<close>: the content of the downloaded file.\<close>

definition handleExport :: "js_env \<Rightarrow> ActivityLog list \<Rightarrow> string" where
  "handleExport env shown = fold (\<lambda>log csvContent. csvContent @ csvRow env log) shown csvHeader"

subsection \<open>The viewer as the specification words it\<close>

text \<open>
  The filtering pipeline in the specification's words. First the free-text search: an
  entry matches when one of username, fullName, action, entity and details contains the
  search term, case ignored.
\<close>

definition searchableFields :: "ActivityLog \<Rightarrow> string list" where
  "searchableFields log =
     (case user log of None \<Rightarrow> [] | Some u \<Rightarrow> [username u, fullName u])
     @ [action log, entity log, details log]"

definition containsIgnoringCase :: "js_env \<Rightarrow> string \<Rightarrow> string \<Rightarrow> bool" where
  "containsIgnoringCase env field needle =
     str_includes (toLowerCase env field) (toLowerCase env needle)"

definition spec_freeTextSearch :: "js_env \<Rightarrow> string \<Rightarrow> ActivityLog list \<Rightarrow> ActivityLog list" where
  "spec_freeTextSearch env needle ls =
     (if needle = [] then ls
      else filter (\<lambda>log. list_ex (\<lambda>field. containsIgnoringCase env field needle)
                            (searchableFields log)) ls)"

text \<open>
  Then the structured filters: the user, the action and the entity are the chosen value
  exactly, and the timestamp lies in the inclusive range of days from \<open>fromDate\<close> to
  \<open>toDate\<close>, that is from 00:00:00 of the first day through 23:59:59 of the last one. A
  day is the UTC day that the filter's date names. A filter field left empty does not
  filter.
\<close>

definition spec_userIs :: "string \<Rightarrow> ActivityLog \<Rightarrow> bool" where
  "spec_userIs chosen log =
     (case user log of None \<Rightarrow> False | Some u \<Rightarrow> username u = chosen \<or> fullName u = chosen)"

definition dayStart :: "js_env \<Rightarrow> string \<Rightarrow> int option" where
  "dayStart env d = map_option (\<lambda>t. (t div msPerDay) * msPerDay) (dateParse env d)"

definition dayEnd :: "js_env \<Rightarrow> string \<Rightarrow> int option" where
  "dayEnd env d =
     map_option (\<lambda>t. (t div msPerDay) * msPerDay + (23 * 3600000 + 59 * 60000 + 59 * 1000))
       (dateParse env d)"

definition spec_fromDay :: "js_env \<Rightarrow> string \<Rightarrow> ActivityLog \<Rightarrow> bool" where
  "spec_fromDay env d log =
     (case dateParse env (timestamp log) of
        None \<Rightarrow> False
      | Some t \<Rightarrow> (case dayStart env d of None \<Rightarrow> False | Some lo \<Rightarrow> lo \<le> t))"

definition spec_toDay :: "js_env \<Rightarrow> string \<Rightarrow> ActivityLog \<Rightarrow> bool" where
  "spec_toDay env d log =
     (case dateParse env (timestamp log) of
        None \<Rightarrow> False
      | Some t \<Rightarrow> (case dayEnd env d of None \<Rightarrow> False | Some hi \<Rightarrow> t \<le> hi))"

definition spec_passes :: "js_env \<Rightarrow> log_filters \<Rightarrow> ActivityLog \<Rightarrow> bool" where
  "spec_passes env f log =
     ((filter_user f = [] \<or> spec_userIs (filter_user f) log)
      \<and> (filter_action f = [] \<or> action log = filter_action f)
      \<and> (filter_entity f = [] \<or> entity log = filter_entity f)
      \<and> (fromDate f = [] \<or> spec_fromDay env (fromDate f) log)
      \<and> (toDate f = [] \<or> spec_toDay env (toDate f) log))"

definition spec_structuredFilters :: "js_env \<Rightarrow> log_filters \<Rightarrow> ActivityLog list \<Rightarrow> ActivityLog list" where
  "spec_structuredFilters env f ls = filter (spec_passes env f) ls"

text \<open>
  Last the sort by timestamp, newest first, entries of equal time in their order of
  arrival. The specification orders entries by their timestamp only; an entry whose
  timestamp is no date is given time 0 here.
\<close>

definition timeOf :: "js_env \<Rightarrow> ActivityLog \<Rightarrow> int" where
  "timeOf env log = (case dateParse env (timestamp log) of None \<Rightarrow> 0 | Some t \<Rightarrow> t)"

definition spec_newestFirst :: "js_env \<Rightarrow> ActivityLog list \<Rightarrow> ActivityLog list" where
  "spec_newestFirst env ls = sort_key (\<lambda>log. - timeOf env log) ls"

definition spec_pipeline :: "js_env \<Rightarrow> ActivityLog list \<Rightarrow> string \<Rightarrow> log_filters \<Rightarrow> ActivityLog list" where
  "spec_pipeline env all_logs needle f =
     spec_newestFirst env (spec_structuredFilters env f (spec_freeTextSearch env needle all_logs))"

text \<open>
  The conditions under which the component is compared with the specification: the
  browser's local time is UTC; lower-casing keeps the empty string empty and a non-empty
  string non-empty, as \<open>String.prototype.toLowerCase\<close> does; the filter's dates are
  date-only strings, which are parsed as midnight UTC of their day (or are no dates at
  all); every timestamp is a date.
\<close>

definition keepsEmptiness :: "js_env \<Rightarrow> bool" where
  "keepsEmptiness env = (\<forall>str. (toLowerCase env str = []) = (str = []))"

definition dateOnly :: "js_env \<Rightarrow> string \<Rightarrow> bool" where
  "dateOnly env d = (case dateParse env d of None \<Rightarrow> True | Some t \<Rightarrow> t mod msPerDay = 0)"

definition timestampsValid :: "js_env \<Rightarrow> ActivityLog list \<Rightarrow> bool" where
  "timestampsValid env ls = list_all (\<lambda>log. dateParse env (timestamp log) \<noteq> None) ls"

text \<open>
  What the effect keeps of the full list, as one test on an entry, and a filter setting
  that relaxes another one by clearing fields.
\<close>

definition keeps :: "js_env \<Rightarrow> string \<Rightarrow> log_filters \<Rightarrow> ActivityLog \<Rightarrow> bool" where
  "keeps env needle f log =
     ((needle = [] \<or> matchesSearch env (toLowerCase env needle) log)
      \<and> (filter_user f = [] \<or> matchesUser (filter_user f) log)
      \<and> (filter_action f = [] \<or> action log = filter_action f)
      \<and> (filter_entity f = [] \<or> entity log = filter_entity f)
      \<and> (fromDate f = [] \<or> onOrAfter env (fromDate f) log)
      \<and> (toDate f = [] \<or> onOrBefore env (toDate f) log))"

definition relaxes :: "log_filters \<Rightarrow> log_filters \<Rightarrow> bool" where
  "relaxes f' f =
     ((filter_user f' = [] \<or> filter_user f' = filter_user f)
      \<and> (filter_action f' = [] \<or> filter_action f' = filter_action f)
      \<and> (filter_entity f' = [] \<or> filter_entity f' = filter_entity f)
      \<and> (fromDate f' = [] \<or> fromDate f' = fromDate f)
      \<and> (toDate f' = [] \<or> toDate f' = toDate f))"

text \<open>The DELETE request did not succeed: a status outside 200..299, or no response.\<close>

definition request_failed :: "unit http_result \<Rightarrow> bool" where
  "request_failed r = (case r of HttpResponse st body \<Rightarrow> \<not> response_ok st | NetworkError m \<Rightarrow> True)"

text \<open>All pending timers fire, oldest first.\<close>

definition fireAllTimers :: "log_state \<Rightarrow> log_state" where
  "fireAllTimers s = (fireTimer ^^ length (timers s)) s"

text \<open>
  The CSV file in the specification's words: the fields of a row, a field wrapped in
  double quotes, the number of lines of a file (each line ends with a line feed), and the
  reading of a field in which every doubled quote stands for one quote.
\<close>

definition csvFields :: "js_env \<Rightarrow> ActivityLog \<Rightarrow> string list" where
  "csvFields env log =
     [formatTimestamp env (timestamp log), exportUser log, exportRole log, action log,
      entity log, escapeQuotes (details log), ipAddress log]"

definition quoted :: "string \<Rightarrow> string" where
  "quoted field = dquote @ field @ dquote"

definition lineCount :: "string \<Rightarrow> nat" where
  "lineCount content = count_list content (CHR 0x0A)"

fun unescapeQuotes :: "string \<Rightarrow> string" where
  "unescapeQuotes (a # b # rest) =
     (if a = CHR 0x22 \<and> b = CHR 0x22 then a # unescapeQuotes rest
      else a # unescapeQuotes (b # rest))"
| "unescapeQuotes rest = rest"

text \<open>The displayed list is what the effect computes from the full list.\<close>

definition shown_is_recomputed :: "js_env \<Rightarrow> log_state \<Rightarrow> bool" where
  "shown_is_recomputed env s =
     (filteredLogs s = applyFilters env (logs s) (searchTerm s) (filters s))"

text \<open>No position of the ballot is named like a member of \<open>Object.prototype\<close>.\<close>

definition ordinaryPositions :: "ballot_state \<Rightarrow> bool" where
  "ordinaryPositions s = list_all (\<lambda>pos. pos \<notin> set objectPrototypeMembers) (positions s)"

section \<open>Sample data\<close>

definition sampleCandidate :: "string option \<Rightarrow> string option \<Rightarrow> string \<Rightarrow> string \<Rightarrow> candidate" where
  "sampleCandidate i u n pos =
     \<lparr>cand_id = i, cand_uid = u, name = n, imageUrl = None, cand_image = None, bio = None,
      manifesto = None, votes = None, position = pos, positionId = None\<rparr>"

definition alice :: candidate where
  "alice = sampleCandidate (Some ''c1'') None ''Alice'' ''President''"

definition bob :: candidate where
  "bob = sampleCandidate (Some ''c2'') None ''Bob'' ''President''"

definition carol :: candidate where
  "carol = sampleCandidate (Some ''c3'') None ''Carol'' ''Secretary''"

definition nameless :: candidate where
  "nameless = sampleCandidate None None ''Dan'' ''Secretary''"

definition sampleBallot :: CandidatesByPosition where
  "sampleBallot =
     DAList.update ''Secretary'' [carol, nameless] (DAList.update ''President'' [alice, bob] DAList.empty)"

text \<open>A ballot with a position named like a member of \<open>Object.prototype\<close>.\<close>

definition dora :: candidate where
  "dora = sampleCandidate (Some ''c4'') None ''Dora'' ''constructor''"

definition oddBallot :: CandidatesByPosition where
  "oddBallot =
     DAList.update ''President'' [alice, bob] (DAList.update ''constructor'' [dora] DAList.empty)"

definition sampleParse :: "string \<Rightarrow> int option" where
  "sampleParse str =
     (if str = ''2024-01-15'' then Some 1705276800000
      else if str = ''2024-01-15T12:00:00.000Z'' then Some 1705320000000
      else if str = ''2024-01-14T09:30:00.000Z'' then Some 1705224600000
      else None)"

definition sampleLocale :: "int option \<Rightarrow> string" where
  "sampleLocale v =
     (case v of
        None \<Rightarrow> ''Invalid Date''
      | Some t \<Rightarrow> if t = 1705320000000 then ''1/15/2024, 12:00:00 PM''
                  else ''1/14/2024, 9:30:00 AM'')"

text \<open>Lower-casing of the ASCII letters, as the platform does it on ASCII strings.\<close>

definition asciiLowerChar :: "char \<Rightarrow> char" where
  "asciiLowerChar c =
     (case map_of (zip ''ABCDEFGHIJKLMNOPQRSTUVWXYZ'' ''abcdefghijklmnopqrstuvwxyz'') c of
        Some l \<Rightarrow> l
      | None \<Rightarrow> c)"

definition asciiLower :: "string \<Rightarrow> string" where
  "asciiLower str = map asciiLowerChar str"

text \<open>A browser in UTC, and one five hours west of it.\<close>

definition utcEnv :: js_env where
  "utcEnv = \<lparr>dateParse = sampleParse, localOffset = 0, toLocaleString = sampleLocale,
             toLowerCase = asciiLower, engineSort = (\<lambda>cmp xs. xs)\<rparr>"

definition westEnv :: js_env where
  "westEnv = \<lparr>dateParse = sampleParse, localOffset = - 18000000, toLocaleString = sampleLocale,
              toLowerCase = asciiLower, engineSort = (\<lambda>cmp xs. xs)\<rparr>"

definition admin :: log_user where
  "admin = \<lparr>user_id = ''u1'', username = ''admin'', fullName = ''Ama Mensah'',
            role = Some \<lparr>role_name = ''Administrator''\<rparr>\<rparr>"

definition loginLog :: ActivityLog where
  "loginLog =
     \<lparr>log_id = ''l1'', userId = ''u1'', user = Some admin, action = ''LOGIN'',
      entity = ''User'', entityId = ''u1'', details = ''Signed in'',
      ipAddress = ''10.0.0.1'', timestamp = ''2024-01-14T09:30:00.000Z''\<rparr>"

definition renameLog :: ActivityLog where
  "renameLog =
     \<lparr>log_id = ''l2'', userId = ''u9'', user = None, action = ''UPDATE'',
      entity = ''Candidate'', entityId = ''c1'',
      details = ''Renamed to '' @ dquote @ ''Kofi'' @ dquote,
      ipAddress = ''10.0.0.2'', timestamp = ''2024-01-15T12:00:00.000Z''\<rparr>"

definition viewer :: permissions where
  "viewer = \<lparr>canViewLogs = True, canDeleteLogs = False\<rparr>"

definition manager :: permissions where
  "manager = \<lparr>canViewLogs = True, canDeleteLogs = True\<rparr>"

section \<open>Properties of the ballot workflow\<close>

lemmas ballot_eval =
  run_def step_def unselectedEffect_def fetchOnMount_def fetchInBackground_def handleRefresh_def
  handleVote_def handleNoneSelected_def handleConfirmVote_def initial_state_def keys_def entries_def
  is_unselected_def truthy_flag_def truthy_string_def candidateId_def allPositionsSelected_def
  validSelectedCandidates_def reduceStep_def resolveCandidate_def settled_def conflicting_def
  selectionPrompt_def noCandidatesMessage_def positionSelected_def getProperty_def
  truthy_value_def objectPrototypeMembers_def ordinaryPositions_def
  sampleBallot_def oddBallot_def alice_def bob_def carol_def dora_def nameless_def
  sampleCandidate_def
  DAList.update.rep_eq DAList.empty.rep_eq DAList.delete.rep_eq DAList.lookup.rep_eq Let_def

lemma keys_sample: "keys sampleBallot = [''President'', ''Secretary'']"
  by (simp add: ballot_eval)

lemma is_unselected_unselectedPositions:
  "is_unselected (s\<lparr>unselectedPositions := ps\<rparr>) = is_unselected s"
  by (rule ext) (simp add: is_unselected_def)

lemma settled_unselectedEffect: "settled (unselectedEffect s)"
  by (simp add: settled_def unselectedEffect_def is_unselected_unselectedPositions)

lemma settled_fold_step: "settled s \<Longrightarrow> settled (fold step evs s)"
  by (induction evs arbitrary: s) (simp_all add: step_def settled_unselectedEffect)

lemma settled_initial: "settled initial_state"
  by (simp add: settled_def initial_state_def)

lemma settled_run: "settled (run evs)"
  by (simp add: run_def settled_fold_step settled_initial)

lemma allPositionsSelected_iff:
  "allPositionsSelected s \<longleftrightarrow> (\<forall>pos \<in> set (positions s). positionSelected s pos)"
  by (simp add: allPositionsSelected_def list_all_iff)

lemma positionSelected_ordinary:
  assumes "pos \<notin> set objectPrototypeMembers"
  shows "positionSelected s pos \<longleftrightarrow>
           DAList.lookup (selectedCandidateIds s) pos \<noteq> None
           \<or> DAList.lookup (noneSelected s) pos = Some True"
  using assms
  by (auto simp: positionSelected_def getProperty_def truthy_value_def split: option.splits)

lemma is_unselected_positionSelected: "is_unselected s pos \<longleftrightarrow> \<not> positionSelected s pos"
  by (simp add: is_unselected_def positionSelected_def)

text \<open>
  On a ballot none of whose positions is named like a member of \<open>Object.prototype\<close>, and
  in a state on which the \<open>unselectedPositions\<close> effect has run (every state between two
  events is one, see \<open>settled_run\<close>), \<open>handleConfirmVote\<close> navigates to \<open>/confirm-vote\<close> if
  and only if every position of the positions list has a selected candidate id or a true
  abstention flag. Otherwise it does not navigate, and the error message is the prompt
  followed by the names of exactly the positions that have neither, in ballot order,
  separated by \<open>", "\<close>.
\<close>

lemma confirm_check_on_ordinary_names:
  assumes "settled s" and "ordinaryPositions s"
  shows "((\<exists>payload. snd (handleConfirmVote s) = Some (''/confirm-vote'', payload)) \<longleftrightarrow>
           (\<forall>pos \<in> set (positions s).
              DAList.lookup (selectedCandidateIds s) pos \<noteq> None
              \<or> DAList.lookup (noneSelected s) pos = Some True))
         \<and> (\<not> (\<forall>pos \<in> set (positions s).
              DAList.lookup (selectedCandidateIds s) pos \<noteq> None
              \<or> DAList.lookup (noneSelected s) pos = Some True) \<longrightarrow>
             snd (handleConfirmVote s) = None
             \<and> error (fst (handleConfirmVote s)) =
                 selectionPrompt @ join '', ''
                   (filter (\<lambda>pos. DAList.lookup (selectedCandidateIds s) pos = None
                                 \<and> DAList.lookup (noneSelected s) pos \<noteq> Some True) (positions s)))"
proof -
  have ordinary: "pos \<notin> set objectPrototypeMembers" if "pos \<in> set (positions s)" for pos
    using assms(2) that by (simp add: ordinaryPositions_def list_all_iff)
  have check: "allPositionsSelected s \<longleftrightarrow>
      (\<forall>pos \<in> set (positions s).
         DAList.lookup (selectedCandidateIds s) pos \<noteq> None
         \<or> DAList.lookup (noneSelected s) pos = Some True)"
    unfolding allPositionsSelected_iff
    using positionSelected_ordinary [OF ordinary] by blast
  have "filter (is_unselected s) (positions s) =
          filter (\<lambda>pos. DAList.lookup (selectedCandidateIds s) pos = None
                        \<and> DAList.lookup (noneSelected s) pos \<noteq> Some True) (positions s)"
    by (rule filter_cong [OF refl])
       (simp add: is_unselected_positionSelected positionSelected_ordinary [OF ordinary])
  with assms(1) have listed: "unselectedPositions s =
          filter (\<lambda>pos. DAList.lookup (selectedCandidateIds s) pos = None
                        \<and> DAList.lookup (noneSelected s) pos \<noteq> Some True) (positions s)"
    by (simp add: settled_def)
  show ?thesis
  proof (cases "allPositionsSelected s")
    case True
    with check show ?thesis
      by (simp add: handleConfirmVote_def)
  next
    case False
    with check listed show ?thesis
      by (simp add: handleConfirmVote_def)
  qed
qed

lemma confirm_check_example:
  "settled (run [MountFetch (Response sampleBallot), Vote alice ''President''])
   \<and> ordinaryPositions (run [MountFetch (Response sampleBallot), Vote alice ''President''])
   \<and> snd (handleConfirmVote (run [MountFetch (Response sampleBallot), Vote alice ''President''])) = None
   \<and> error (fst (handleConfirmVote (run [MountFetch (Response sampleBallot), Vote alice ''President''])))
       = ''Please make a selection for each position: Secretary''"
  by (simp add: ballot_eval)

text \<open>
  C1 at a failing input. The ballot has the positions \<open>constructor\<close> and \<open>President\<close>, and
  the voter selects a candidate for President only. The position \<open>constructor\<close> has
  neither a selected candidate id nor an abstention flag in the state, but
  \<open>selectedCandidateIds["constructor"]\<close> reads the member inherited from
  \<open>Object.prototype\<close>, which is not \<open>undefined\<close>: the list of unselected positions is
  empty, the check passes, and \<open>handleConfirmVote\<close> navigates to \<open>/confirm-vote\<close> with a
  payload that holds the President only.
\<close>

theorem completeness_check_passes_inherited_name:
  "positions (run [MountFetch (Response oddBallot), Vote alice ''President''])
     = [''constructor'', ''President'']
   \<and> DAList.lookup (selectedCandidateIds
         (run [MountFetch (Response oddBallot), Vote alice ''President''])) ''constructor'' = None
   \<and> DAList.lookup (noneSelected
         (run [MountFetch (Response oddBallot), Vote alice ''President''])) ''constructor'' = None
   \<and> unselectedPositions (run [MountFetch (Response oddBallot), Vote alice ''President'']) = []
   \<and> allPositionsSelected (run [MountFetch (Response oddBallot), Vote alice ''President''])
   \<and> handleConfirmVote (run [MountFetch (Response oddBallot), Vote alice ''President''])
       = (run [MountFetch (Response oddBallot), Vote alice ''President''],
          Some (''/confirm-vote'',
                \<lparr>selectedCandidates = DAList.update ''President'' alice DAList.empty,
                 payload_noneSelected = DAList.update ''President'' False DAList.empty\<rparr>))"
  by (simp add: ballot_eval DAList.alist_eq_iff)

lemma not_conflicting_handle:
  "\<forall>pos. \<not> conflicting s pos \<Longrightarrow> \<not> conflicting (handle e s) pos"
  apply (cases e)
  apply (auto simp: conflicting_def truthy_flag_def handleVote_def handleNoneSelected_def
      handleRefresh_def fetchOnMount_def fetchInBackground_def handleConfirmVote_def Let_def DAList.lookup_update
      split: fetch_result.splits option.splits if_splits)
  done

lemma not_conflicting_fold_step:
  "\<forall>pos. \<not> conflicting s pos \<Longrightarrow> \<not> conflicting (fold step evs s) pos"
proof (induction evs arbitrary: s)
  case Nil
  then show ?case by simp
next
  case (Cons e evs)
  have "\<forall>p. \<not> conflicting (step e s) p"
    using Cons.prems not_conflicting_handle [of s e]
    by (simp add: step_def conflicting_def unselectedEffect_def)
  then show ?case using Cons.IH by simp
qed

text \<open>
  C2. After any sequence of events from the initial state (votes, abstentions, and the
  fetches as well), no position has both a selected candidate id and a true abstention
  flag. \<open>handleVote\<close> stores \<open>false\<close> as the abstention flag of its position, and
  \<open>handleNoneSelected\<close> deletes the selected candidate id of its position.
\<close>

theorem selection_and_abstention_exclusive:
  "\<not> conflicting (run evs) pos
   \<and> DAList.lookup (noneSelected (handleVote c pos s)) pos = Some False
   \<and> DAList.lookup (selectedCandidateIds (handleNoneSelected pos s)) pos = None"
proof -
  have "\<forall>p. \<not> conflicting initial_state p"
    by (simp add: conflicting_def initial_state_def)
  then have "\<not> conflicting (run evs) pos"
    unfolding run_def by (rule not_conflicting_fold_step)
  then show ?thesis
    by (simp add: handleVote_def handleNoneSelected_def)
qed

theorem selection_and_abstention_exclusive_witness:
  "\<not> conflicting (run [MountFetch (Response sampleBallot), NoneOfTheListed ''President'',
        Vote alice ''President'']) ''President''
   \<and> DAList.lookup (selectedCandidateIds (run [MountFetch (Response sampleBallot),
        NoneOfTheListed ''President'', Vote alice ''President''])) ''President'' = Some ''c1''"
  using selection_and_abstention_exclusive [of "[MountFetch (Response sampleBallot), NoneOfTheListed ''President'',
        Vote alice ''President'']" "''President''"]
  by (simp add: ballot_eval)

text \<open>
  C3, as stated, fails. The ballot is loaded, the voter selects a candidate for President
  and abstains for Secretary, the background fetch then answers with an empty ballot (so
  the refresh button is shown), and the voter refreshes: the ballot is replaced, and both
  the selection and the abstention are still there.
\<close>

theorem refresh_keeps_selection_counterexample:
  "keys (candidatesByPosition (run [MountFetch (Response sampleBallot), Vote alice ''President'',
         NoneOfTheListed ''Secretary'', BackgroundFetch (Response (Some DAList.empty))])) = []
   \<and> \<not> loading (run [MountFetch (Response sampleBallot), Vote alice ''President'',
         NoneOfTheListed ''Secretary'', BackgroundFetch (Response (Some DAList.empty))])
   \<and> candidatesByPosition (handleRefresh (Response (Some sampleBallot))
        (run [MountFetch (Response sampleBallot), Vote alice ''President'',
         NoneOfTheListed ''Secretary'', BackgroundFetch (Response (Some DAList.empty))])) = sampleBallot
   \<and> DAList.lookup (selectedCandidateIds (handleRefresh (Response (Some sampleBallot))
        (run [MountFetch (Response sampleBallot), Vote alice ''President'',
         NoneOfTheListed ''Secretary'', BackgroundFetch (Response (Some DAList.empty))]))) ''President''
       = Some ''c1''
   \<and> DAList.lookup (noneSelected (handleRefresh (Response (Some sampleBallot))
        (run [MountFetch (Response sampleBallot), Vote alice ''President'',
         NoneOfTheListed ''Secretary'', BackgroundFetch (Response (Some DAList.empty))]))) ''Secretary''
       = Some True
   \<and> selectedCandidateIds (handleRefresh (Response (Some sampleBallot))
        (run [MountFetch (Response sampleBallot), Vote alice ''President'',
         NoneOfTheListed ''Secretary'', BackgroundFetch (Response (Some DAList.empty))])) \<noteq> DAList.empty
   \<and> noneSelected (handleRefresh (Response (Some sampleBallot))
        (run [MountFetch (Response sampleBallot), Vote alice ''President'',
         NoneOfTheListed ''Secretary'', BackgroundFetch (Response (Some DAList.empty))])) \<noteq> DAList.empty"
  by (simp add: ballot_eval DAList.alist_eq_iff)

text \<open>
  C3, amended. \<open>handleRefresh\<close> never changes the selected-candidate map or the
  abstention map, whatever the request returns; when the response carries a non-empty
  ballot, \<open>candidatesByPosition\<close> becomes that ballot and \<open>positions\<close> its keys.
\<close>

theorem refresh_replaces_ballot_keeps_selection:
  "selectedCandidateIds (handleRefresh r s) = selectedCandidateIds s
   \<and> noneSelected (handleRefresh r s) = noneSelected s
   \<and> (\<forall>data. r = Response (Some data) \<and> keys data \<noteq> [] \<longrightarrow>
         candidatesByPosition (handleRefresh r s) = data
         \<and> positions (handleRefresh r s) = keys data)"
  by (simp add: handleRefresh_def Let_def split: fetch_result.splits option.splits)

theorem refresh_replaces_ballot_keeps_selection_witness:
  "keys sampleBallot \<noteq> []
   \<and> candidatesByPosition (handleRefresh (Response (Some sampleBallot))
        (run [MountFetch (Response sampleBallot), Vote alice ''President''])) = sampleBallot
   \<and> positions (handleRefresh (Response (Some sampleBallot))
        (run [MountFetch (Response sampleBallot), Vote alice ''President''])) = [''President'', ''Secretary'']
   \<and> DAList.lookup (selectedCandidateIds (handleRefresh (Response (Some sampleBallot))
        (run [MountFetch (Response sampleBallot), Vote alice ''President'']))) ''President'' = Some ''c1''"
  using refresh_replaces_ballot_keeps_selection [of "Response (Some sampleBallot)" "run [MountFetch (Response sampleBallot), Vote alice ''President'']"]
  by (simp add: keys_sample) (simp add: ballot_eval)







section \<open>Properties of the activity log viewer\<close>

lemmas log_eval =
  run_log_def step_log_def filterEffect_def fetchLogs_def handleFilterChange_def
  handleClearFilters_def handleClearLogs_def fireTimer_def fireAllTimers_def initial_logs_def
  noFilters_def response_ok_def messageOr_def request_failed_def clearButtonRendered_def
  applyFilters_def matchesSearch_def matchesUser_def onOrAfter_def onOrBefore_def
  newestFirst_def arraySort_def comparable_def notAfter_def date_ge_def date_le_def
  setHours_def msPerDay_def asciiLower_def asciiLowerChar_def digitChar_def
  sampleParse_def sampleLocale_def utcEnv_def westEnv_def admin_def loginLog_def renameLog_def
  viewer_def manager_def dquote_def newline_def Let_def

text \<open>
  C8. Without the delete permission the "Clear All Logs" button is not rendered, and
  \<open>handleClearLogs\<close> returns the state it was given and has no interaction with the
  outside: no confirmation dialog and no DELETE request.
\<close>

theorem clear_logs_without_permission_is_noop:
  "handleClearLogs False confirmed r s = (s, []) \<and> \<not> clearButtonRendered False"
  by (simp add: handleClearLogs_def clearButtonRendered_def)

theorem clear_logs_without_permission_is_noop_witness:
  "\<not> canDeleteLogs viewer
   \<and> handleClearLogs (canDeleteLogs viewer) True (HttpResponse 200 ())
        (run_log utcEnv viewer [LogsFetched (HttpResponse 200 [loginLog, renameLog])])
      = (run_log utcEnv viewer [LogsFetched (HttpResponse 200 [loginLog, renameLog])], [])
   \<and> length (logs (run_log utcEnv viewer [LogsFetched (HttpResponse 200 [loginLog, renameLog]),
        ClearLogsClicked True (HttpResponse 200 ())])) = 2"
  using clear_logs_without_permission_is_noop [of True "HttpResponse 200 ()"
      "run_log utcEnv viewer [LogsFetched (HttpResponse 200 [loginLog, renameLog])]"]
  by (simp add: log_eval)

lemma timers_fireTimer: "timers (fireTimer s) = tl (timers s)"
  by (cases "timers s") (auto simp: fireTimer_def split: timer_callback.splits)

lemma notification_fireTimer: "timers s \<noteq> [] \<Longrightarrow> notification (fireTimer s) = None"
  by (cases "timers s") (auto simp: fireTimer_def split: timer_callback.splits)

lemma timers_fire_pow: "timers ((fireTimer ^^ n) s) = drop n (timers s)"
proof (induction n)
  case 0
  then show ?case by simp
next
  case (Suc n)
  then show ?case by (simp add: timers_fireTimer drop_Suc tl_drop)
qed

lemma notification_fireAllTimers:
  assumes "timers s \<noteq> []"
  shows "notification (fireAllTimers s) = None"
proof -
  obtain n where n: "length (timers s) = Suc n"
    using assms by (cases "timers s") auto
  have "timers ((fireTimer ^^ n) s) \<noteq> []"
    using n by (simp add: timers_fire_pow)
  then have "notification (fireTimer ((fireTimer ^^ n) s)) = None"
    by (rule notification_fireTimer)
  then show ?thesis
    by (simp add: fireAllTimers_def n)
qed

text \<open>
  C9. With the delete permission: when the user declines the confirmation, the state is
  unchanged and no request is sent. When the DELETE request fails, \<open>logs\<close> and
  \<open>filteredLogs\<close> are unchanged, an error notification is set, and a timer of 3000 ms is
  scheduled that clears the notification: once the pending timers have fired, there is no
  notification. When the request succeeds, both lists are emptied.
\<close>

theorem clear_logs_failure_keeps_logs:
  "handleClearLogs True False r s = (s, [ConfirmDialog])
   \<and> (request_failed r \<longrightarrow>
        logs (fst (handleClearLogs True True r s)) = logs s
        \<and> filteredLogs (fst (handleClearLogs True True r s)) = filteredLogs s
        \<and> (\<exists>msg. notification (fst (handleClearLogs True True r s))
                    = Some \<lparr>notice_type = NoticeError, message = msg\<rparr>)
        \<and> timers (fst (handleClearLogs True True r s)) = timers s @ [(3000, ClearNotification)]
        \<and> notification (fireAllTimers (fst (handleClearLogs True True r s))) = None)
   \<and> (\<not> request_failed r \<longrightarrow>
        logs (fst (handleClearLogs True True r s)) = []
        \<and> filteredLogs (fst (handleClearLogs True True r s)) = [])"
proof -
  have t: "timers (fst (handleClearLogs True True r s)) = timers s @ [(3000, ClearNotification)]"
    by (simp add: handleClearLogs_def Let_def split: http_result.splits)
  then have "timers (fst (handleClearLogs True True r s)) \<noteq> []" by simp
  then have n: "notification (fireAllTimers (fst (handleClearLogs True True r s))) = None"
    by (rule notification_fireAllTimers)
  show ?thesis
    using t n
    by (simp add: handleClearLogs_def request_failed_def Let_def split: http_result.splits)
qed

theorem clear_logs_failure_keeps_logs_witness:
  "request_failed (HttpResponse 500 ())
   \<and> logs (fst (handleClearLogs True True (HttpResponse 500 ())
        (run_log utcEnv manager [LogsFetched (HttpResponse 200 [loginLog, renameLog])])))
      = [loginLog, renameLog]
   \<and> filteredLogs (fst (handleClearLogs True True (HttpResponse 500 ())
        (run_log utcEnv manager [LogsFetched (HttpResponse 200 [loginLog, renameLog])])))
      = [renameLog, loginLog]
   \<and> notification (fst (handleClearLogs True True (HttpResponse 500 ())
        (run_log utcEnv manager [LogsFetched (HttpResponse 200 [loginLog, renameLog])])))
      = Some \<lparr>notice_type = NoticeError, message = ''Failed to clear logs: 500''\<rparr>
   \<and> notification (fireAllTimers (fst (handleClearLogs True True (HttpResponse 500 ())
        (run_log utcEnv manager [LogsFetched (HttpResponse 200 [loginLog, renameLog])])))) = None"
  using clear_logs_failure_keeps_logs [of "HttpResponse 500 ()"
      "run_log utcEnv manager [LogsFetched (HttpResponse 200 [loginLog, renameLog])]"]
  by (simp add: log_eval)



lemma fold_append_rows:
  "fold (\<lambda>log csvContent. csvContent @ csvRow env log) shown acc
     = acc @ concat (map (csvRow env) shown)"
  by (induction shown arbitrary: acc) simp_all

lemma csvRow_join: "csvRow env log = join '','' (map quoted (csvFields env log)) @ newline"
  by (simp add: csvRow_def csvFields_def quoted_def)

lemma unescape_escape: "unescapeQuotes (escapeQuotes d) = d"
proof (induction d)
  case Nil
  then show ?case by (simp add: escapeQuotes_def)
next
  case (Cons c d)
  show ?case
  proof (cases "c = CHR 0x22")
    case True
    with Cons show ?thesis by (simp add: escapeQuotes_def)
  next
    case False
    have step: "escapeQuotes (c # d) = c # escapeQuotes d"
      using False by (simp add: escapeQuotes_def)
    show ?thesis
    proof (cases "escapeQuotes d")
      case Nil
      with Cons step show ?thesis by simp
    next
      case (Cons b r)
      with Cons.IH step False show ?thesis by simp
    qed
  qed
qed

lemma count_list_append: "count_list (xs @ ys) a = count_list xs a + count_list ys a"
  by (induction xs) simp_all

lemma count_list_concat: "count_list (concat xss) a = sum_list (map (\<lambda>xs. count_list xs a) xss)"
  by (induction xss) (simp_all add: count_list_append)

lemma count_list_absent: "a \<notin> set xs \<Longrightarrow> count_list xs a = 0"
  by (induction xs) auto

lemma lineCount_csvRow:
  assumes "\<forall>field \<in> set (csvFields env log). CHR 0x0A \<notin> set field"
  shows "lineCount (csvRow env log) = 1"
  using assms
  by (simp add: lineCount_def csvRow_def csvFields_def count_list_append count_list_absent
      dquote_def newline_def)

lemma lineCount_rows:
  assumes "\<forall>log \<in> set shown. \<forall>field \<in> set (csvFields env log). CHR 0x0A \<notin> set field"
  shows "lineCount (concat (map (csvRow env) shown)) = length shown"
  using assms
proof (induction shown)
  case Nil
  then show ?case by (simp add: lineCount_def)
next
  case (Cons log shown)
  then have "lineCount (csvRow env log) = 1" and "lineCount (concat (map (csvRow env) shown)) = length shown"
    by (simp_all add: lineCount_csvRow)
  then show ?case by (simp add: lineCount_def count_list_append)
qed

text \<open>
  C7. The exported file is a function of the filtered list alone (and of the browser's
  date formatting): the header line followed by one row per entry, in order. A row is its
  seven fields, each wrapped in double quotes, separated by commas and ended by a line
  feed; the sixth field is \<open>details\<close> with every double quote doubled, so that reading
  doubled quotes back gives \<open>details\<close> again. When no field contains a line feed, the
  file of \<open>N\<close> entries has \<open>N + 1\<close> lines.
\<close>

theorem export_is_header_plus_quoted_rows:
  "handleExport env shown = csvHeader @ concat (map (csvRow env) shown)
   \<and> length (map (csvRow env) shown) = length shown
   \<and> (\<forall>log. csvRow env log = join '','' (map quoted (csvFields env log)) @ newline
            \<and> csvFields env log ! 5 = escapeQuotes (details log))
   \<and> (\<forall>d. unescapeQuotes (escapeQuotes d) = d
          \<and> count_list (escapeQuotes d) (CHR 0x22) = 2 * count_list d (CHR 0x22))
   \<and> ((\<forall>log \<in> set shown. \<forall>field \<in> set (csvFields env log). CHR 0x0A \<notin> set field) \<longrightarrow>
        lineCount (handleExport env shown) = length shown + 1)"
proof -
  have content: "handleExport env shown = csvHeader @ concat (map (csvRow env) shown)"
    by (simp add: handleExport_def fold_append_rows)
  have doubled: "count_list (escapeQuotes d) (CHR 0x22) = 2 * count_list d (CHR 0x22)" for d
    by (induction d) (simp_all add: escapeQuotes_def)
  have header: "lineCount csvHeader = 1"
    by (simp add: lineCount_def csvHeader_def newline_def count_list_append)
  have lines: "lineCount (handleExport env shown) = length shown + 1"
    if "\<forall>log \<in> set shown. \<forall>field \<in> set (csvFields env log). CHR 0x0A \<notin> set field"
    using lineCount_rows [OF that] header
    by (simp add: content lineCount_def count_list_append)
  show ?thesis
    using content doubled lines
    by (simp add: csvRow_join unescape_escape csvFields_def)
qed

lemmas csv_eval =
  handleExport_def csvRow_def csvHeader_def csvFields_def quoted_def formatTimestamp_def
  exportUser_def exportRole_def escapeQuotes_def lineCount_def

theorem export_is_header_plus_quoted_rows_witness:
  "list_all (\<lambda>log. list_all (\<lambda>field. CHR 0x0A \<notin> set field) (csvFields utcEnv log))
     [renameLog, loginLog]
   \<and> lineCount (handleExport utcEnv [renameLog, loginLog]) = 3
   \<and> handleExport utcEnv [renameLog, loginLog] =
       ''Time,User,Role,Action,Entity,Details,IP Address'' @ newline @
       dquote @ ''1/15/2024, 12:00:00 PM'' @ dquote @ '','' @ dquote @ ''Unknown'' @ dquote @ '','' @
       dquote @ dquote @ '','' @ dquote @ ''UPDATE'' @ dquote @ '','' @ dquote @ ''Candidate'' @ dquote @ '','' @
       dquote @ ''Renamed to '' @ dquote @ dquote @ ''Kofi'' @ dquote @ dquote @ dquote @ '','' @
       dquote @ ''10.0.0.2'' @ dquote @ newline @
       dquote @ ''1/14/2024, 9:30:00 AM'' @ dquote @ '','' @ dquote @ ''Ama Mensah'' @ dquote @ '','' @
       dquote @ ''Administrator'' @ dquote @ '','' @ dquote @ ''LOGIN'' @ dquote @ '','' @ dquote @ ''User'' @ dquote @ '','' @
       dquote @ ''Signed in'' @ dquote @ '','' @
       dquote @ ''10.0.0.1'' @ dquote @ newline"
proof -
  have h: "\<forall>log \<in> set [renameLog, loginLog]. \<forall>field \<in> set (csvFields utcEnv log). CHR 0x0A \<notin> set field"
    by (simp add: csv_eval log_eval)
  have c: "handleExport utcEnv [renameLog, loginLog] =
       ''Time,User,Role,Action,Entity,Details,IP Address'' @ newline @
       dquote @ ''1/15/2024, 12:00:00 PM'' @ dquote @ '','' @ dquote @ ''Unknown'' @ dquote @ '','' @
       dquote @ dquote @ '','' @ dquote @ ''UPDATE'' @ dquote @ '','' @ dquote @ ''Candidate'' @ dquote @ '','' @
       dquote @ ''Renamed to '' @ dquote @ dquote @ ''Kofi'' @ dquote @ dquote @ dquote @ '','' @
       dquote @ ''10.0.0.2'' @ dquote @ newline @
       dquote @ ''1/14/2024, 9:30:00 AM'' @ dquote @ '','' @ dquote @ ''Ama Mensah'' @ dquote @ '','' @
       dquote @ ''Administrator'' @ dquote @ '','' @ dquote @ ''LOGIN'' @ dquote @ '','' @ dquote @ ''User'' @ dquote @ '','' @
       dquote @ ''Signed in'' @ dquote @ '','' @
       dquote @ ''10.0.0.1'' @ dquote @ newline"
    by (simp add: csv_eval log_eval)
  from export_is_header_plus_quoted_rows [of utcEnv "[renameLog, loginLog]"]
  have "(\<forall>log \<in> set [renameLog, loginLog]. \<forall>field \<in> set (csvFields utcEnv log). CHR 0x0A \<notin> set field)
          \<longrightarrow> lineCount (handleExport utcEnv [renameLog, loginLog]) = length [renameLog, loginLog] + 1"
    by (elim conjE)
  with h have "lineCount (handleExport utcEnv [renameLog, loginLog]) = 3"
    by simp
  moreover have "list_all (\<lambda>log. list_all (\<lambda>field. CHR 0x0A \<notin> set field) (csvFields utcEnv log))
     [renameLog, loginLog]"
    using h by (simp add: list_all_iff)
  ultimately show ?thesis using c by blast
qed


subsection \<open>The filtering pipeline\<close>

text \<open>
  The displayed list is recomputed from the full list: after any sequence of events it
  is what the effect computes from \<open>logs\<close>, the search term and the filters, and that is
  the sort of the entries of the full list that pass all the active tests.
\<close>

lemma cond_filter: "(if c then filter P xs else xs) = filter (\<lambda>x. \<not> c \<or> P x) xs"
  by simp

lemma applyFilters_as_filter:
  "applyFilters env ls needle f
     = arraySort env (newestFirst env) (filter (keeps env needle f) ls)"
proof -
  have "applyFilters env ls needle f =
          arraySort env (newestFirst env)
            (filter (\<lambda>log. toDate f = [] \<or> onOrBefore env (toDate f) log)
            (filter (\<lambda>log. fromDate f = [] \<or> onOrAfter env (fromDate f) log)
            (filter (\<lambda>log. filter_entity f = [] \<or> entity log = filter_entity f)
            (filter (\<lambda>log. filter_action f = [] \<or> action log = filter_action f)
            (filter (\<lambda>log. filter_user f = [] \<or> matchesUser (filter_user f) log)
            (filter (\<lambda>log. needle = [] \<or> matchesSearch env (toLowerCase env needle) log)
               ls))))))"
    unfolding applyFilters_def Let_def
    by (simp only: cond_filter not_not)
  also have "\<dots> = arraySort env (newestFirst env) (filter (keeps env needle f) ls)"
    by (simp add: keeps_def conj_commute conj_left_commute cong: filter_cong)
  finally show ?thesis .
qed

lemma applyFilters_Nil: "applyFilters env [] needle f = []"
  by (simp add: applyFilters_as_filter arraySort_def comparable_def)

lemma filterEffect_shown:
  assumes "logs s = [] \<longrightarrow> filteredLogs s = []"
  shows "shown_is_recomputed env (filterEffect env s)"
  using assms
  by (simp add: shown_is_recomputed_def filterEffect_def applyFilters_Nil)

lemma handle_log_empty:
  assumes "logs s = [] \<longrightarrow> filteredLogs s = []"
  shows "logs (handle_log p e s) = [] \<longrightarrow> filteredLogs (handle_log p e s) = []"
proof (cases e)
  case (LogsFetched r)
  with assms show ?thesis
    by (auto simp: fetchLogs_def Let_def split: http_result.splits if_splits)
next
  case (ClearLogsClicked confirmed r)
  with assms show ?thesis
    by (auto simp: handleClearLogs_def Let_def split: http_result.splits if_splits)
next
  case TimerFired
  with assms show ?thesis
    by (auto simp: fireTimer_def split: list.splits timer_callback.splits)
qed (use assms in \<open>simp_all add: handleFilterChange_def handleClearFilters_def\<close>)

lemma shown_is_recomputed_step:
  assumes "shown_is_recomputed env s"
  shows "shown_is_recomputed env (step_log env p e s)"
proof -
  have "logs s = [] \<longrightarrow> filteredLogs s = []"
    using assms by (simp add: shown_is_recomputed_def applyFilters_Nil)
  then have "logs (handle_log p e s) = [] \<longrightarrow> filteredLogs (handle_log p e s) = []"
    by (rule handle_log_empty)
  then show ?thesis
    unfolding step_log_def by (rule filterEffect_shown)
qed

lemma shown_is_recomputed_fold:
  "shown_is_recomputed env s \<Longrightarrow> shown_is_recomputed env (fold (step_log env p) evs s)"
  by (induction evs arbitrary: s) (simp_all add: shown_is_recomputed_step)

lemma shown_is_recomputed_run: "shown_is_recomputed env (run_log env p evs)"
  unfolding run_log_def
  by (rule shown_is_recomputed_fold)
     (simp add: shown_is_recomputed_def initial_logs_def applyFilters_Nil)

text \<open>
  When every timestamp is a date, the comparator is defined on every pair, and the
  component's sort is the stable sort by time, newest first.
\<close>

lemma comparable_newestFirst:
  assumes "timestampsValid env xs"
  shows "comparable (newestFirst env) xs"
  using assms
  by (auto simp: comparable_def timestampsValid_def list_all_iff newestFirst_def
      split: option.splits)

lemma notAfter_newestFirst:
  assumes "dateParse env (timestamp a) \<noteq> None" and "dateParse env (timestamp b) \<noteq> None"
  shows "notAfter (newestFirst env a b) \<longleftrightarrow> - timeOf env a \<le> - timeOf env b"
  using assms by (auto simp: notAfter_def newestFirst_def timeOf_def)

lemma set_insort_key_times: "set (insort_key k x xs) = insert x (set xs)"
  by (simp add: set_insort_key)

lemma insertSorted_insort_key:
  assumes "dateParse env (timestamp x) \<noteq> None"
    and "\<forall>l \<in> set xs. dateParse env (timestamp l) \<noteq> None"
  shows "insertSorted (newestFirst env) x xs = insort_key (\<lambda>log. - timeOf env log) x xs"
  using assms
proof (induction xs)
  case Nil
  then show ?case by simp
next
  case (Cons y ys)
  have "notAfter (newestFirst env x y) \<longleftrightarrow> - timeOf env x \<le> - timeOf env y"
    using Cons.prems by (simp add: notAfter_newestFirst)
  moreover have "insertSorted (newestFirst env) x ys = insort_key (\<lambda>log. - timeOf env log) x ys"
    using Cons by simp
  ultimately show ?case by simp
qed

lemma foldr_insertSorted_sort_key:
  assumes "\<forall>l \<in> set xs. dateParse env (timestamp l) \<noteq> None"
  shows "foldr (insertSorted (newestFirst env)) xs [] = sort_key (\<lambda>log. - timeOf env log) xs"
  using assms
proof (induction xs)
  case Nil
  then show ?case by simp
next
  case (Cons x xs)
  then have "foldr (insertSorted (newestFirst env)) xs [] = sort_key (\<lambda>log. - timeOf env log) xs"
    by simp
  moreover have "\<forall>l \<in> set (sort_key (\<lambda>log. - timeOf env log) xs).
                   dateParse env (timestamp l) \<noteq> None"
    using Cons.prems by simp
  ultimately show ?case
    using Cons.prems by (simp add: insertSorted_insort_key sort_key_def)
qed

lemma arraySort_newestFirst:
  assumes "timestampsValid env xs"
  shows "arraySort env (newestFirst env) xs = spec_newestFirst env xs"
  using assms comparable_newestFirst [OF assms]
  by (simp add: arraySort_def spec_newestFirst_def foldr_insertSorted_sort_key
      timestampsValid_def list_all_iff)

lemma timestampsValid_filter: "timestampsValid env xs \<Longrightarrow> timestampsValid env (filter P xs)"
  by (simp add: timestampsValid_def list_all_iff)

text \<open>
  The tests of the component against the tests of the specification, one by one.
\<close>

lemma search_matches_spec:
  assumes "keepsEmptiness env" and "needle \<noteq> []"
  shows "matchesSearch env (toLowerCase env needle) log \<longleftrightarrow>
           list_ex (\<lambda>field. containsIgnoringCase env field needle) (searchableFields log)"
proof -
  have lower_empty: "toLowerCase env [] = []"
    using assms(1) by (simp add: keepsEmptiness_def)
  have "toLowerCase env needle \<noteq> []"
    using assms by (simp add: keepsEmptiness_def)
  then have "\<not> str_includes (toLowerCase env []) (toLowerCase env needle)"
    by (simp add: lower_empty)
  then have guard: "(x \<noteq> [] \<and> str_includes (toLowerCase env x) (toLowerCase env needle))
                 = str_includes (toLowerCase env x) (toLowerCase env needle)" for x
    by (cases "x = []") simp_all
  show ?thesis
    by (cases "user log")
       (auto simp: matchesSearch_def searchableFields_def containsIgnoringCase_def guard)
qed

lemma user_matches_spec: "matchesUser chosen log \<longleftrightarrow> spec_userIs chosen log"
  by (cases "user log") (auto simp: matchesUser_def spec_userIs_def)

lemma from_matches_spec:
  assumes "dateOnly env d"
  shows "onOrAfter env d log \<longleftrightarrow> spec_fromDay env d log"
proof (cases "dateParse env d")
  case None
  then show ?thesis
    by (simp add: onOrAfter_def spec_fromDay_def dayStart_def date_ge_def split: option.splits)
next
  case (Some t)
  with assms have "t mod msPerDay = 0" by (simp add: dateOnly_def)
  then have "(t div msPerDay) * msPerDay = t"
    using div_mult_mod_eq [of t msPerDay] by simp
  with Some show ?thesis
    by (simp add: onOrAfter_def spec_fromDay_def dayStart_def date_ge_def split: option.splits)
qed

lemma to_matches_spec:
  assumes "localOffset env = 0" and "dateOnly env d"
  shows "onOrBefore env d log \<longleftrightarrow> spec_toDay env d log"
proof (cases "dateParse env d")
  case None
  then show ?thesis
    by (simp add: onOrBefore_def spec_toDay_def dayEnd_def date_le_def split: option.splits)
next
  case (Some t)
  with assms have whole: "t mod msPerDay = 0" by (simp add: dateOnly_def)
  then obtain k where "t = msPerDay * k"
    by (auto simp: mod_eq_0_iff_dvd)
  then have "t mod 1000 = 0"
    by (simp add: msPerDay_def)
  then have "setHours env 23 59 59 t
               = (t div msPerDay) * msPerDay + (23 * 3600000 + 59 * 60000 + 59 * 1000)"
    using assms(1) by (simp add: setHours_def Let_def)
  with Some show ?thesis
    by (simp add: onOrBefore_def spec_toDay_def dayEnd_def date_le_def split: option.splits)
qed

text \<open>
  In a browser whose local time is UTC, for date-only filter dates and entries whose
  timestamps are dates, the component computes the pipeline of the specification.
\<close>

lemma applyFilters_is_pipeline_in_utc:
  assumes "localOffset env = 0" and "keepsEmptiness env"
    and "dateOnly env (fromDate f)" and "dateOnly env (toDate f)"
    and "timestampsValid env ls"
  shows "applyFilters env ls needle f = spec_pipeline env ls needle f"
proof -
  have "keeps env needle f log \<longleftrightarrow>
          (needle = [] \<or> list_ex (\<lambda>field. containsIgnoringCase env field needle)
                             (searchableFields log))
          \<and> spec_passes env f log" for log
    using search_matches_spec [OF assms(2), of needle log]
    by (auto simp: keeps_def spec_passes_def user_matches_spec
        from_matches_spec [OF assms(3)] to_matches_spec [OF assms(1) assms(4)])
  then have "filter (keeps env needle f) ls
               = spec_structuredFilters env f (spec_freeTextSearch env needle ls)"
    by (simp add: spec_structuredFilters_def spec_freeTextSearch_def cong: filter_cong)
  moreover have "timestampsValid env (filter (keeps env needle f) ls)"
    using assms(5) by (rule timestampsValid_filter)
  ultimately show ?thesis
    by (simp add: applyFilters_as_filter spec_pipeline_def arraySort_newestFirst)
qed

lemma applyFilters_is_pipeline_example:
  "localOffset utcEnv = 0 \<and> dateOnly utcEnv ''2024-01-15'' \<and> dateOnly utcEnv []
   \<and> timestampsValid utcEnv [loginLog, renameLog]
   \<and> applyFilters utcEnv [loginLog, renameLog] ''KOFI'' (noFilters\<lparr>toDate := ''2024-01-15''\<rparr>)
       = [renameLog]
   \<and> spec_pipeline utcEnv [loginLog, renameLog] ''KOFI'' (noFilters\<lparr>toDate := ''2024-01-15''\<rparr>)
       = [renameLog]"
proof -
  have "keepsEmptiness utcEnv"
    by (simp add: keepsEmptiness_def utcEnv_def asciiLower_def)
  moreover have "localOffset utcEnv = 0" and "dateOnly utcEnv ''2024-01-15''" and "dateOnly utcEnv []"
    by (simp_all add: utcEnv_def dateOnly_def sampleParse_def msPerDay_def)
  moreover have "timestampsValid utcEnv [loginLog, renameLog]"
    by (simp add: timestampsValid_def log_eval)
  moreover have "applyFilters utcEnv [loginLog, renameLog] ''KOFI''
                   (noFilters\<lparr>toDate := ''2024-01-15''\<rparr>) = [renameLog]"
    by (simp add: log_eval)
  ultimately show ?thesis
    using applyFilters_is_pipeline_in_utc [of utcEnv "noFilters\<lparr>toDate := ''2024-01-15''\<rparr>"
        "[loginLog, renameLog]" "''KOFI''"]
    by (simp add: noFilters_def)
qed

text \<open>
  For entries whose timestamps are dates, the sort is a permutation that puts the newest
  first, and clearing the search term or filter fields can only add entries.
\<close>

lemma mset_filter_mono:
  assumes "\<And>x. P x \<Longrightarrow> Q x"
  shows "mset (filter P xs) \<subseteq># mset (filter Q xs)"
proof (induction xs)
  case Nil
  then show ?case by simp
next
  case (Cons x xs)
  then show ?case
    using assms by (auto intro: subset_mset.order_trans [OF _ mset_subset_eq_add_mset_cancel [THEN iffD2]] simp: subset_mset.le_iff_add)
qed

lemma keeps_relaxed:
  assumes "relaxes f' f" and "needle' = [] \<or> needle' = needle" and "keeps env needle f log"
  shows "keeps env needle' f' log"
proof -
  from assms(1) have
    r1: "filter_user f' = [] \<or> filter_user f' = filter_user f" and
    r2: "filter_action f' = [] \<or> filter_action f' = filter_action f" and
    r3: "filter_entity f' = [] \<or> filter_entity f' = filter_entity f" and
    r4: "fromDate f' = [] \<or> fromDate f' = fromDate f" and
    r5: "toDate f' = [] \<or> toDate f' = toDate f"
    by (simp_all add: relaxes_def)
  from assms(3) have
    p0: "needle = [] \<or> matchesSearch env (toLowerCase env needle) log" and
    p1: "filter_user f = [] \<or> matchesUser (filter_user f) log" and
    p2: "filter_action f = [] \<or> action log = filter_action f" and
    p3: "filter_entity f = [] \<or> entity log = filter_entity f" and
    p4: "fromDate f = [] \<or> onOrAfter env (fromDate f) log" and
    p5: "toDate f = [] \<or> onOrBefore env (toDate f) log"
    by (simp_all add: keeps_def)
  have "needle' = [] \<or> matchesSearch env (toLowerCase env needle') log"
    using assms(2) p0 by auto
  moreover have "filter_user f' = [] \<or> matchesUser (filter_user f') log"
    using r1 p1 by auto
  moreover have "filter_action f' = [] \<or> action log = filter_action f'"
    using r2 p2 by auto
  moreover have "filter_entity f' = [] \<or> entity log = filter_entity f'"
    using r3 p3 by auto
  moreover have "fromDate f' = [] \<or> onOrAfter env (fromDate f') log"
    using r4 p4 by auto
  moreover have "toDate f' = [] \<or> onOrBefore env (toDate f') log"
    using r5 p5 by auto
  ultimately show ?thesis
    by (simp add: keeps_def)
qed

lemma mset_applyFilters:
  assumes "timestampsValid env ls"
  shows "mset (applyFilters env ls needle f) = mset (filter (keeps env needle f) ls)"
proof -
  have "timestampsValid env (filter (keeps env needle f) ls)"
    using assms by (rule timestampsValid_filter)
  then show ?thesis
    by (simp add: applyFilters_as_filter arraySort_newestFirst spec_newestFirst_def)
qed

lemma applyFilters_newest_first:
  assumes "timestampsValid env ls"
  shows "sorted (map (\<lambda>log. - timeOf env log) (applyFilters env ls needle f))"
proof -
  have "timestampsValid env (filter (keeps env needle f) ls)"
    using assms by (rule timestampsValid_filter)
  then show ?thesis
    by (simp add: applyFilters_as_filter arraySort_newestFirst spec_newestFirst_def)
qed

lemma applyFilters_grows:
  assumes "timestampsValid env ls" and "relaxes f' f" and "needle' = [] \<or> needle' = needle"
  shows "mset (applyFilters env ls needle f) \<subseteq># mset (applyFilters env ls needle' f')"
  unfolding mset_applyFilters [OF assms(1)]
  by (rule mset_filter_mono) (rule keeps_relaxed [OF assms(2,3)])

text \<open>
  C5 at a failing input, the one of C6: the browser is five hours west of UTC, the logs
  hold an entry of 14 January and one stamped \<open>2024-01-15T12:00:00.000Z\<close>, and \<open>toDate\<close>
  is set to \<open>2024-01-15\<close>. The second entry lies within 15 January, in UTC and in local
  time, so the pipeline of the specification keeps both entries, newest first. The
  displayed list holds the entry of 14 January only, because the upper bound of the date
  range is computed as 23:59:59 local time of 14 January.
\<close>

theorem displayed_logs_miss_entry_of_to_date_day:
  "dateParse westEnv ''2024-01-15'' = Some (19737 * msPerDay)
   \<and> dateParse westEnv (timestamp renameLog) = Some (19737 * msPerDay + 12 * 3600000)
   \<and> (19737 * msPerDay + 12 * 3600000 + localOffset westEnv) div msPerDay = 19737
   \<and> spec_pipeline westEnv [loginLog, renameLog] [] (noFilters\<lparr>toDate := ''2024-01-15''\<rparr>)
       = [renameLog, loginLog]
   \<and> filteredLogs (run_log westEnv viewer
        [LogsFetched (HttpResponse 200 [loginLog, renameLog]),
         FilterChanged ToDateKey ''2024-01-15'']) = [loginLog]"
  by (simp add: log_eval spec_pipeline_def spec_newestFirst_def spec_structuredFilters_def
      spec_freeTextSearch_def spec_passes_def spec_toDay_def dayEnd_def timeOf_def)

subsection \<open>The date range\<close>

text \<open>
  A date-only string such as \<open>2024-01-15\<close>, which is what the date inputs of the filter
  bar produce, is parsed as midnight UTC of that day: \<open>n * msPerDay\<close> for day \<open>n\<close>. The
  lower bound of the range is therefore the start of the \<open>fromDate\<close> day in UTC. The
  upper bound is computed by \<open>setHours\<close> in local time: it is 23:59:59 of the \<open>toDate\<close>
  day when the browser is in UTC or east of it (there, in local time), and 23:59:59 of
  the day before when the browser is west of UTC.
\<close>

lemma onOrAfter_start_of_day:
  assumes "dateParse env d = Some (n * msPerDay)"
  shows "onOrAfter env d log \<longleftrightarrow>
           (\<exists>t. dateParse env (timestamp log) = Some t \<and> n * msPerDay \<le> t)"
  using assms by (auto simp: onOrAfter_def date_ge_def split: option.splits)

lemma setHours_end_of_day_east:
  assumes "0 \<le> localOffset env" and "localOffset env < msPerDay"
    and "localOffset env mod 1000 = 0"
  shows "setHours env 23 59 59 (n * msPerDay) = n * msPerDay + 86399000 - localOffset env"
proof -
  have day: "(n * msPerDay + localOffset env) div msPerDay = n"
    using assms(1,2) by (simp add: msPerDay_def div_pos_pos_trivial)
  have "(n * msPerDay + localOffset env) mod 1000 = 0"
    using assms(3) by (simp add: msPerDay_def mod_add_eq [symmetric] mod_simps)
  with day show ?thesis
    by (simp add: setHours_def Let_def)
qed

lemma setHours_end_of_day_west:
  assumes "localOffset env < 0" and "- msPerDay \<le> localOffset env"
    and "localOffset env mod 1000 = 0"
  shows "setHours env 23 59 59 (n * msPerDay)
           = (n - 1) * msPerDay + 86399000 - localOffset env"
proof -
  have "n * msPerDay + localOffset env = (n - 1) * msPerDay + (msPerDay + localOffset env)"
    by (simp add: algebra_simps)
  moreover have "0 \<le> msPerDay + localOffset env" and "msPerDay + localOffset env < msPerDay"
    using assms(1,2) by simp_all
  ultimately have day: "(n * msPerDay + localOffset env) div msPerDay = n - 1"
    by (simp add: msPerDay_def div_pos_pos_trivial)
  have "(n * msPerDay + localOffset env) mod 1000 = 0"
    using assms(3) by (simp add: msPerDay_def mod_add_eq [symmetric] mod_simps)
  with day show ?thesis
    by (simp add: setHours_def Let_def)
qed

lemma onOrBefore_end_of_utc_day:
  assumes "localOffset env = 0" and "dateParse env d = Some (n * msPerDay)"
  shows "onOrBefore env d log \<longleftrightarrow>
           (\<exists>t. dateParse env (timestamp log) = Some t \<and> t \<le> n * msPerDay + 86399000)"
proof -
  have "setHours env 23 59 59 (n * msPerDay) = n * msPerDay + 86399000"
    using setHours_end_of_day_east [of env n] assms(1) by (simp add: msPerDay_def)
  with assms(2) show ?thesis
    by (auto simp: onOrBefore_def date_le_def split: option.splits)
qed

text \<open>
  C6 at a failing input. The browser is five hours west of UTC, \<open>toDate\<close> is
  \<open>2024-01-15\<close>, and an entry is stamped \<open>2024-01-15T12:00:00.000Z\<close> (07:00 local time of
  that day). The upper bound computed by the effect is 04:59:59 UTC of 15 January, that is
  23:59:59 local time of 14 January, so the entry is filtered out although it lies within
  the \<open>toDate\<close> day, in UTC and in local time alike. With the browser in UTC the same
  filter keeps it.
\<close>

theorem to_date_bound_west_of_utc:
  "dateParse westEnv ''2024-01-15'' = Some (19737 * msPerDay)
   \<and> dateParse westEnv (timestamp renameLog) = Some (19737 * msPerDay + 12 * 3600000)
   \<and> map_option (setHours westEnv 23 59 59) (dateParse westEnv ''2024-01-15'')
       = Some (19737 * msPerDay + 4 * 3600000 + 59 * 60000 + 59 * 1000)
   \<and> \<not> onOrBefore westEnv ''2024-01-15'' renameLog
   \<and> applyFilters westEnv [loginLog, renameLog] [] (noFilters\<lparr>toDate := ''2024-01-15''\<rparr>)
       = [loginLog]
   \<and> applyFilters utcEnv [loginLog, renameLog] [] (noFilters\<lparr>toDate := ''2024-01-15''\<rparr>)
       = [renameLog, loginLog]"
  by (simp add: log_eval)


end
